theory Spec2Isabelle
  imports Main "HOL-Library.Sublist"
begin

section \<open>The environment and the values of the program\<close>

text \<open>
  \<open>process.env\<close>: a variable is either unset (\<open>undefined\<close> in JavaScript) or a string.
\<close>

type_synonym env = "string \<rightharpoonup> string"

text \<open>
  JavaScript's \<open>!v\<close> for a value that is \<open>undefined\<close> or a string: true exactly for
  \<open>undefined\<close> and for the empty string.
\<close>

definition falsy :: "string option \<Rightarrow> bool" where
  "falsy v = (case v of None \<Rightarrow> True | Some s \<Rightarrow> s = [])"

text \<open>An error object, by its text.\<close>

type_synonym js_error = string

text \<open>The options object given to \<open>mysql.createPool\<close> (app.js, lines 13-19).\<close>

record pool_config =
  host :: "string option"
  user :: "string option"
  password :: "string option"
  database :: "string option"
  connectionLimit :: nat

text \<open>The options object given to \<open>new S3Client\<close> (app.js, lines 33-39).\<close>

record s3_client =
  accessKeyId :: "string option"
  secretAccessKey :: "string option"
  region :: "string option"

text \<open>The input of \<open>new GetObjectCommand\<close> (app.js, lines 58-61).\<close>

record get_object_command =
  Bucket :: "string option"
  Key :: string

text \<open>
  A row of the table \<open>products\<close> as the driver hands it to the callback. The pool is
  created without \<open>decimalNumbers\<close>, so a \<open>DECIMAL\<close> column arrives as its decimal
  text; \<open>description\<close> and \<open>price\<close> are nullable columns.
\<close>

record product =
  row_id :: int
  name :: string
  description :: "string option"
  price :: "string option"

text \<open>
  The signed URL: the string the page embeds, together with what that string encodes
  (bucket, object key, validity window in seconds, time of issuance in seconds).
\<close>

record signed_url =
  href :: string
  target_bucket :: "string option"
  target_key :: string
  expiry :: nat
  issued_at :: nat

text \<open>The locals object given to \<open>res.render\<close> (app.js, line 65).\<close>

record locals =
  products :: "product list"
  bannerUrl :: string

text \<open>
  What the program does to the outside, and what the outside answers, in the order it
  happens. \<open>ConsoleError\<close> and \<open>ConsoleLog\<close> carry the arguments of the call, an
  error object by its text. \<open>QueryDone\<close> is the pool invoking the callback of
  \<open>db.query\<close> with the error or the rows; \<open>SignDone\<close> is the promise of
  \<open>getSignedUrl\<close> settling, rejected with an error or resolved with the URL.
\<close>

datatype event =
    CreatePool pool_config
  | ConsoleError "string list"
  | ConsoleLog "string list"
  | ProcessExit nat
  | NewS3Client s3_client
  | AppUse string string
  | AppSet string string
  | AppGet string
  | AppListen nat
  | ProcessOn string
  | DbQuery string
  | QueryDone "js_error + product list"
  | GetSignedUrl s3_client get_object_command nat
  | SignDone "js_error + signed_url"
  | ResSend nat string
  | ResRender string locals
  | DbEnd

section \<open>Startup (app.js, lines 9-45 and 73-85)\<close>

definition port :: nat where
  "port = 3000"

definition db :: "env \<Rightarrow> pool_config" where
  "db e = \<lparr>host = e ''DB_HOST'', user = e ''DB_USER'', password = e ''DB_PASSWORD'',
           database = e ''DB_NAME'', connectionLimit = 10\<rparr>"

definition s3 :: "env \<Rightarrow> s3_client" where
  "s3 e = \<lparr>accessKeyId = e ''AWS_ACCESS_KEY_ID'',
           secretAccessKey = e ''AWS_SECRET_ACCESS_KEY'',
           region = e ''AWS_REGION''\<rparr>"

text \<open>
  The top level of app.js, run once when the process starts. \<open>process.exit\<close> ends the
  process at once, so nothing after it is executed. The result is the trace of the
  module's top level; the callback of \<open>app.listen\<close> and the handlers registered by
  \<open>app.get\<close> and \<open>process.on\<close> run later.
\<close>

definition startup :: "env \<Rightarrow> event list" where
  "startup e =
     (if falsy (e ''DB_HOST'') \<or> falsy (e ''DB_USER'') \<or> falsy (e ''DB_PASSWORD'')
         \<or> falsy (e ''DB_NAME'')
      then [CreatePool (db e),
            ConsoleError [''Missing required environment variables for database connection''],
            ProcessExit 1]
      else if falsy (e ''AWS_ACCESS_KEY_ID'') \<or> falsy (e ''AWS_SECRET_ACCESS_KEY'')
         \<or> falsy (e ''AWS_REGION'') \<or> falsy (e ''S3_BUCKET_NAME'')
      then [CreatePool (db e),
            ConsoleError [''Missing required AWS environment variables''],
            ProcessExit 1]
      else [CreatePool (db e),
            NewS3Client (s3 e),
            AppUse ''/static'' ''public'',
            AppSet ''view engine'' ''ejs'',
            AppGet ''/'',
            AppListen port,
            ProcessOn ''SIGINT''])"

text \<open>The exit status of a trace: the status of its first \<open>process.exit\<close>, if any.\<close>

fun exit_status :: "event list \<Rightarrow> nat option" where
  "exit_status [] = None"
| "exit_status (ProcessExit n # es) = Some n"
| "exit_status (_ # es) = exit_status es"

fun is_listen :: "event \<Rightarrow> bool" where
  "is_listen (AppListen p) = True"
| "is_listen _ = False"

text \<open>The diagnostics a trace writes with \<open>console.error\<close>, in order.\<close>

fun diagnostics :: "event list \<Rightarrow> string list list" where
  "diagnostics [] = []"
| "diagnostics (ConsoleError args # es) = args # diagnostics es"
| "diagnostics (_ # es) = diagnostics es"

text \<open>
  The two configuration groups of the specification (section 6), used to state the
  claims about \<open>startup\<close>.
\<close>

definition db_vars :: "string list" where
  "db_vars = [''DB_HOST'', ''DB_USER'', ''DB_PASSWORD'', ''DB_NAME'']"

definition aws_vars :: "string list" where
  "aws_vars = [''AWS_ACCESS_KEY_ID'', ''AWS_SECRET_ACCESS_KEY'', ''AWS_REGION'',
               ''S3_BUCKET_NAME'']"

definition incomplete :: "env \<Rightarrow> string list \<Rightarrow> bool" where
  "incomplete e vars = list_ex (\<lambda>k. falsy (e k)) vars"

definition db_diagnostic :: string where
  "db_diagnostic = ''Missing required environment variables for database connection''"

definition aws_diagnostic :: string where
  "aws_diagnostic = ''Missing required AWS environment variables''"

section \<open>The collaborators of a request\<close>

text \<open>
  What the outside answers while one request is handled: the pool's answer to a query
  text (the arguments of the callback of \<open>db.query\<close>: an error, or the rows; \<open>None\<close>
  when the pool never invokes the callback, as when the process exits while the query
  is in flight), whether signing fails and with which error, the signer's clock in
  seconds, and the text of the URL the signer builds.
\<close>

record world =
  query_result :: "string \<Rightarrow> (js_error + product list) option"
  s3_fault :: "js_error option"
  clock :: nat
  url_text :: "s3_client \<Rightarrow> get_object_command \<Rightarrow> nat \<Rightarrow> nat \<Rightarrow> string"

text \<open>
  Modelled from the spec: the presigner \<open>getSignedUrl\<close> belongs to the object-store
  client library, which is not part of the repository. Sections 3 and 4.2: given the
  client, the command (bucket and object key) and an expiry duration, it produces a URL
  for that one object, valid for the expiry window counted from the issuance; it fails
  only from malformed configuration or client-side errors.
\<close>

definition getSignedUrl ::
  "world \<Rightarrow> s3_client \<Rightarrow> get_object_command \<Rightarrow> nat \<Rightarrow> js_error + signed_url" where
  "getSignedUrl w client command expiresIn =
     (case s3_fault w of
        Some err \<Rightarrow> Inl err
      | None \<Rightarrow>
          Inr \<lparr>href = url_text w client command expiresIn (clock w),
               target_bucket = Bucket command,
               target_key = Key command,
               expiry = expiresIn,
               issued_at = clock w\<rparr>)"

text \<open>The last second at which a signed URL is valid.\<close>

definition valid_until :: "signed_url \<Rightarrow> nat" where
  "valid_until u = issued_at u + expiry u"

section \<open>The route GET / (app.js, lines 48-71)\<close>

text \<open>
  The callback given to \<open>db.query\<close> (lines 50-70), run by the pool when the query has
  completed, with the error or the rows. \<open>await\<close> suspends it until the promise of
  the signer has settled; a rejection is thrown there and caught by the \<open>catch\<close>
  block.
\<close>

definition query_callback :: "env \<Rightarrow> world \<Rightarrow> js_error + product list \<Rightarrow> event list" where
  "query_callback e w outcome =
     (case outcome of
        Inl err \<Rightarrow>
          [ConsoleError [''Error fetching data from database:'', err],
           ResSend 500 ''Database error'']
      | Inr results \<Rightarrow>
          (let command = \<lparr>Bucket = e ''S3_BUCKET_NAME'', Key = ''banner.jpg''\<rparr>;
               settled = getSignedUrl w (s3 e) command 3600
           in GetSignedUrl (s3 e) command 3600 # SignDone settled #
              (case settled of
                 Inl err \<Rightarrow>
                   [ConsoleError [''Error fetching static file from S3:'', err],
                    ResSend 500 ''S3 error'']
               | Inr url \<Rightarrow>
                   [ResRender ''index'' \<lparr>products = results, bannerUrl = href url\<rparr>])))"

text \<open>
  The handler of the route (lines 48-71): it issues the query with the callback and
  returns. Everything else of the request happens in the callback: when the pool
  invokes it, the trace of the request continues with the pool's answer and the run of
  the callback; when the pool never does, the request ends there.
\<close>

definition handle_root :: "env \<Rightarrow> world \<Rightarrow> event list" where
  "handle_root e w =
     (let query = ''SELECT * FROM products'' in
      DbQuery query #
      (case query_result w query of
         None \<Rightarrow> []
       | Some outcome \<Rightarrow> QueryDone outcome # query_callback e w outcome))"

text \<open>
  The server handles the requests one after the other, each against the outside as it
  is at that moment. The handler reads the constants of the module (\<open>db\<close>, \<open>s3\<close>,
  \<open>process.env\<close>) and writes no variable that outlives the request.
\<close>

fun serve :: "env \<Rightarrow> world list \<Rightarrow> event list list" where
  "serve e [] = []"
| "serve e (w # ws) = handle_root e w # serve e ws"

section \<open>The view (views/index.ejs)\<close>

text \<open>
  The escaping of an output tag \<open><%= v %>\<close>: nothing for \<open>null\<close> and \<open>undefined\<close>,
  otherwise the text with the five markup characters replaced by entities.
\<close>

definition escape_char :: "char \<Rightarrow> string" where
  "escape_char c =
     (if c = CHR ''&'' then ''&amp;''
      else if c = CHR ''<'' then ''&lt;''
      else if c = CHR ''>'' then ''&gt;''
      else if c = CHR 0x22 then ''&#34;''
      else if c = CHR 0x27 then ''&#39;''
      else [c])"

definition escapeXML :: "string option \<Rightarrow> string" where
  "escapeXML markup = (case markup of None \<Rightarrow> [] | Some s \<Rightarrow> concat (map escape_char s))"

text \<open>
  The literal text of the template between its tags, line breaks included. A scriptlet
  tag \<open><% ... %>\<close> writes nothing; the text around it stays.
\<close>

definition text_head :: string where
  \<open>text_head =
     ''<!DOCTYPE html>\<newline>'' @
     ''<html lang="en">\<newline>'' @
     ''<head>\<newline>'' @
     ''    <meta charset="UTF-8">\<newline>'' @
     ''    <meta name="viewport" content="width=device-width, initial-scale=1.0">\<newline>'' @
     ''    <title>Node.js App</title>\<newline>'' @
     ''    <link rel="stylesheet" href="/static/style.css">\<newline>'' @
     ''</head>\<newline>'' @
     ''<body>\<newline>'' @
     ''    <header>\<newline>'' @
     ''        <h1>Welcome to the Node.js App</h1>\<newline>'' @
     ''        <img src="''\<close>

definition text_list :: string where
  \<open>text_list =
     ''" alt="Banner Image" style="width: 100%; max-height: 300px;">\<newline>'' @
     ''    </header>\<newline>'' @
     ''    <main>\<newline>'' @
     ''        <h2>Product List</h2>\<newline>'' @
     ''        <ul>\<newline>'' @
     ''            ''\<close>

definition text_name :: string where
  "text_name =
     ''\<newline>'' @
     ''                <li>\<newline>'' @
     ''                    <h3>''"

definition text_description :: string where
  "text_description =
     ''</h3>\<newline>'' @
     ''                    <p>''"

definition text_price :: string where
  "text_price =
     ''</p>\<newline>'' @
     ''                    <p>Price: $''"

definition text_item_end :: string where
  "text_item_end =
     ''</p>\<newline>'' @
     ''                </li>\<newline>'' @
     ''            ''"

definition text_tail :: string where
  "text_tail =
     ''\<newline>'' @
     ''        </ul>\<newline>'' @
     ''    </main>\<newline>'' @
     ''</body>\<newline>'' @
     ''</html>''"

text \<open>
  The body of the callback of \<open>products.forEach\<close>: what one product appends to the
  output written so far.
\<close>

definition item :: "product \<Rightarrow> string \<Rightarrow> string" where
  "item product out =
     out @ text_name @ escapeXML (Some (name product))
         @ text_description @ escapeXML (description product)
         @ text_price @ escapeXML (price product)
         @ text_item_end"

text \<open>The compiled template: the output after every tag has run, in order.\<close>

definition index_ejs :: "locals \<Rightarrow> string" where
  "index_ejs ls =
     fold item (products ls) (text_head @ escapeXML (Some (bannerUrl ls)) @ text_list)
       @ text_tail"

text \<open>The views directory holds the one view \<open>index\<close>.\<close>

definition render :: "string \<Rightarrow> locals \<Rightarrow> string option" where
  "render view ls = (if view = ''index'' then Some (index_ejs ls) else None)"

text \<open>
  The HTTP response an event sends: \<open>res.status(s).send(b)\<close> sends status \<open>s\<close> and body
  \<open>b\<close>; \<open>res.render\<close> sends the rendered view with the default status 200.
\<close>

fun response :: "event \<Rightarrow> (nat \<times> string) option" where
  "response (ResSend status body) = Some (status, body)"
| "response (ResRender view ls) = map_option (Pair 200) (render view ls)"
| "response _ = None"

definition responses :: "event list \<Rightarrow> (nat \<times> string) list" where
  "responses es = List.map_filter response es"

fun is_sign :: "event \<Rightarrow> bool" where
  "is_sign (GetSignedUrl client command expiresIn) = True"
| "is_sign _ = False"

fun is_render :: "event \<Rightarrow> bool" where
  "is_render (ResRender view ls) = True"
| "is_render _ = False"

fun is_query :: "event \<Rightarrow> bool" where
  "is_query (DbQuery q) = True"
| "is_query _ = False"

section \<open>Reading a trace\<close>

text \<open>The query text and the command of the route, for the statements below.\<close>

definition the_query :: string where
  "the_query = ''SELECT * FROM products''"

definition the_command :: "env \<Rightarrow> get_object_command" where
  "the_command e = \<lparr>Bucket = e ''S3_BUCKET_NAME'', Key = ''banner.jpg''\<rparr>"

text \<open>The signed URLs issued in a trace, and the locals handed to the view.\<close>

fun issued :: "event list \<Rightarrow> signed_url list" where
  "issued [] = []"
| "issued (SignDone (Inr url) # es) = url # issued es"
| "issued (_ # es) = issued es"

fun rendered :: "event list \<Rightarrow> locals list" where
  "rendered [] = []"
| "rendered (ResRender view ls # es) = ls # rendered es"
| "rendered (_ # es) = rendered es"


text \<open>Sample rows (the rows the README inserts) and sample states of the outside.\<close>

definition sample_rows :: "product list" where
  "sample_rows =
     [\<lparr>row_id = 1, name = ''Product 1'', description = Some ''Description of Product 1'',
       price = Some ''19.99''\<rparr>,
      \<lparr>row_id = 2, name = ''Product 2'', description = Some ''Description of Product 2'',
       price = Some ''29.99''\<rparr>]"

definition failing_db :: "js_error \<Rightarrow> world" where
  "failing_db err =
     \<lparr>query_result = (\<lambda>q. Some (Inl err)), s3_fault = None, clock = 0,
      url_text = (\<lambda>client command expiresIn t. [])\<rparr>"

definition failing_s3 :: "product list \<Rightarrow> js_error \<Rightarrow> world" where
  "failing_s3 rows err =
     \<lparr>query_result = (\<lambda>q. Some (Inr rows)), s3_fault = Some err, clock = 0,
      url_text = (\<lambda>client command expiresIn t. [])\<rparr>"

definition working :: "product list \<Rightarrow> nat \<Rightarrow> world" where
  "working rows t =
     \<lparr>query_result = (\<lambda>q. Some (Inr rows)), s3_fault = None, clock = t,
      url_text = (\<lambda>client command expiresIn t. ''https://bucket/banner.jpg'')\<rparr>"

text \<open>The outside when the callback of the query is never invoked.\<close>

definition unanswered :: world where
  "unanswered =
     \<lparr>query_result = (\<lambda>q. None), s3_fault = None, clock = 0,
      url_text = (\<lambda>client command expiresIn t. [])\<rparr>"

section \<open>Reading a page\<close>

text \<open>
  The item entries of a page: the number of places where the tag \<open><li>\<close> opens.
\<close>

fun count_li :: "string \<Rightarrow> nat" where
  "count_li [] = 0"
| "count_li (c # cs) = (if prefix ''<li>'' (c # cs) then 1 else 0) + count_li cs"

text \<open>What one product contributes to the page.\<close>

definition entry :: "product \<Rightarrow> string" where
  "entry p = item p []"

text \<open>
  A decimal text with exactly two fraction digits: an optional sign, digits, a point,
  two digits, as the text of a \<open>DECIMAL(10, 2)\<close> value.
\<close>

definition is_digit :: "char \<Rightarrow> bool" where
  "is_digit c = (c \<in> set ''0123456789'')"

definition integer_text :: "string \<Rightarrow> bool" where
  "integer_text s =
     (case s of
        [] \<Rightarrow> False
      | c # cs \<Rightarrow>
          if c = CHR ''-'' then cs \<noteq> [] \<and> list_all is_digit cs
          else list_all is_digit (c # cs))"

definition two_fraction_digits :: "string \<Rightarrow> bool" where
  "two_fraction_digits s =
     (case rev s of
        d2 # d1 # dot # whole \<Rightarrow>
          is_digit d2 \<and> is_digit d1 \<and> dot = CHR ''.'' \<and> integer_text (rev whole)
      | _ \<Rightarrow> False)"

text \<open>A text without any of the five characters that \<open>escapeXML\<close> replaces.\<close>

definition markup_free :: "string \<Rightarrow> bool" where
  "markup_free s = list_all (\<lambda>c. c \<notin> set [CHR ''&'', CHR ''<'', CHR ''>'', CHR 0x22, CHR 0x27]) s"

text \<open>A row inserted with its name only: description and price are \<open>NULL\<close>.\<close>

definition unpriced :: product where
  "unpriced = \<lparr>row_id = 4, name = ''Gift'', description = None, price = None\<rparr>"

section \<open>Shutdown (app.js, lines 78-85)\<close>

text \<open>
  Modelled from the spec: the connection pool is the database driver's, which is not
  part of the repository. Section 5 and the glossary: a set of connections checked out
  per query and returned after use; once the pool is ended it accepts no new checkout,
  and it is closed, and the callback of \<open>end\<close> called, only after the operations in
  flight have completed. The state of the pool: whether it was ended, how many
  checked-out connections have an operation in flight, whether the callback of
  \<open>end\<close> is still to be called, and whether \<open>end\<close> was called on a pool already
  ended.
\<close>

record pool =
  closed :: bool
  in_flight :: nat
  end_pending :: bool
  ended_again :: bool

text \<open>
  Modelled from the spec: a checkout is refused once the pool was ended; otherwise one
  more operation is in flight.
\<close>

definition checkout :: "pool \<Rightarrow> js_error + pool" where
  "checkout p =
     (if closed p then Inl ''Pool is closed.''
      else Inr (p\<lparr>in_flight := in_flight p + 1\<rparr>))"

text \<open>Modelled from the spec: an operation completes and its connection is returned.\<close>

definition release :: "pool \<Rightarrow> pool" where
  "release p = p\<lparr>in_flight := in_flight p - 1\<rparr>"

text \<open>
  Modelled from the spec: \<open>end\<close> stops the checkouts at once and leaves its callback
  to be called. Section 5 is silent on a pool that is ended a second time; the record
  keeps that it happened.
\<close>

definition pool_end :: "pool \<Rightarrow> pool" where
  "pool_end p = p\<lparr>closed := True, end_pending := True, ended_again := closed p\<rparr>"

text \<open>
  Modelled from the spec: the pool is closed and the callback called only when no
  operation is in flight. Beyond section 5: on a pool ended a second time the driver
  cannot queue its closing command again and calls the callback at once, with an error
  that the callback of app.js does not look at.
\<close>

definition end_ready :: "pool \<Rightarrow> bool" where
  "end_ready p = (end_pending p \<and> (in_flight p = 0 \<or> ended_again p))"

text \<open>
  The running process: its pool, what it has done so far, and its exit status once it
  has exited.
\<close>

record process =
  pool_of :: pool
  trace :: "event list"
  exited :: "nat option"

text \<open>
  The signals that end a process. app.js registers a handler for SIGINT and for no
  other signal (line 79); a signal without handler is left to the runtime's default
  handler, which exits with status 128 plus the number of the signal.
\<close>

datatype signal = SIGINT | SIGTERM

fun signal_number :: "signal \<Rightarrow> nat" where
  "signal_number SIGINT = 2"
| "signal_number SIGTERM = 15"

text \<open>
  What reaches the process: a signal, a request (whose handler calls \<open>db.query\<close>),
  and the completion of an operation in flight.
\<close>

datatype input = Signal signal | Query | Completion

text \<open>The handler registered with \<open>process.on('SIGINT', ...)\<close> (app.js, lines 79-85).\<close>

definition sigint_handler :: "process \<Rightarrow> process" where
  "sigint_handler s =
     s\<lparr>trace := trace s @ [ConsoleLog [''Shutting down server...''], DbEnd],
       pool_of := pool_end (pool_of s)\<rparr>"

text \<open>The callback given to \<open>db.end\<close> (app.js, lines 81-84).\<close>

definition end_callback :: "process \<Rightarrow> process" where
  "end_callback s =
     s\<lparr>trace := trace s @ [ConsoleLog [''MySQL connections closed''], ProcessExit 0],
       pool_of := (pool_of s)\<lparr>end_pending := False\<rparr>,
       exited := Some 0\<rparr>"

text \<open>The pool calls the callback of \<open>end\<close> as soon as it is ready to.\<close>

definition settle :: "process \<Rightarrow> process" where
  "settle s = (if end_ready (pool_of s) then end_callback s else s)"

text \<open>
  One input handled. A process that has exited handles nothing. SIGINT runs its
  handler; SIGTERM has none and ends the process by default. A request calls
  \<open>db.query\<close> whatever the state of the pool (the server goes on listening): on an
  ended pool the callback is invoked with the pool's error and the request is answered
  as after any failed query (the trace of \<open>handle_root\<close> for a failed query); otherwise
  a connection is checked out and the operation is in flight. A completion returns the
  connection; how the request then continues is \<open>query_callback\<close>, and is not
  repeated in the trace of the process.
\<close>

definition step :: "process \<Rightarrow> input \<Rightarrow> process" where
  "step s i =
     (if exited s \<noteq> None then s
      else case i of
        Signal sg \<Rightarrow>
          (if sg = SIGINT then settle (sigint_handler s)
           else s\<lparr>exited := Some (128 + signal_number sg)\<rparr>)
      | Query \<Rightarrow>
          (case checkout (pool_of s) of
             Inl err \<Rightarrow>
               s\<lparr>trace := trace s @
                    [DbQuery the_query, QueryDone (Inl err),
                     ConsoleError [''Error fetching data from database:'', err],
                     ResSend 500 ''Database error'']\<rparr>
           | Inr p \<Rightarrow> s\<lparr>trace := trace s @ [DbQuery the_query], pool_of := p\<rparr>)
      | Completion \<Rightarrow>
          (if in_flight (pool_of s) = 0 then s
           else settle (s\<lparr>pool_of := release (pool_of s)\<rparr>)))"

text \<open>The inputs handled in the order they arrive.\<close>

fun run :: "process \<Rightarrow> input list \<Rightarrow> process" where
  "run s [] = s"
| "run s (i # is) = run (step s i) is"

text \<open>A process that has started and has \<open>n\<close> operations in flight.\<close>

definition serving :: "nat \<Rightarrow> process" where
  "serving n =
     \<lparr>pool_of = \<lparr>closed = False, in_flight = n, end_pending = False, ended_again = False\<rparr>,
      trace = [], exited = None\<rparr>"

text \<open>The inputs that are no signal.\<close>

fun quiet :: "input \<Rightarrow> bool" where
  "quiet (Signal sg) = False"
| "quiet _ = True"

text \<open>The number of operations that complete in a sequence of inputs.\<close>

definition completions :: "input list \<Rightarrow> nat" where
  "completions is = length (filter (\<lambda>i. i = Completion) is)"

text \<open>
  The states after one SIGINT: operations still in flight, or exited with status 0
  after the callback. \<open>running\<close>: the states before any signal.
\<close>

definition draining :: "process \<Rightarrow> bool" where
  "draining s = (exited s = None \<and> closed (pool_of s) \<and> end_pending (pool_of s)
                 \<and> \<not> ended_again (pool_of s) \<and> 0 < in_flight (pool_of s))"

definition gone :: "process \<Rightarrow> bool" where
  "gone s = (exited s = Some 0 \<and> closed (pool_of s) \<and> in_flight (pool_of s) = 0
             \<and> suffix [ConsoleLog [''MySQL connections closed''], ProcessExit 0] (trace s))"

definition running :: "process \<Rightarrow> bool" where
  "running s = (exited s = None \<and> \<not> closed (pool_of s) \<and> \<not> end_pending (pool_of s)
                \<and> exit_status (trace s) = None)"

section \<open>Startup validation\<close>

lemma incomplete_db:
  "incomplete e db_vars \<longleftrightarrow>
     falsy (e ''DB_HOST'') \<or> falsy (e ''DB_USER'') \<or> falsy (e ''DB_PASSWORD'')
       \<or> falsy (e ''DB_NAME'')"
  by (simp add: incomplete_def db_vars_def)

lemma incomplete_aws:
  "incomplete e aws_vars \<longleftrightarrow>
     falsy (e ''AWS_ACCESS_KEY_ID'') \<or> falsy (e ''AWS_SECRET_ACCESS_KEY'')
       \<or> falsy (e ''AWS_REGION'') \<or> falsy (e ''S3_BUCKET_NAME'')"
  by (simp add: incomplete_def aws_vars_def)

lemma startup_db_incomplete:
  "incomplete e db_vars \<Longrightarrow>
     startup e = [CreatePool (db e), ConsoleError [db_diagnostic], ProcessExit 1]"
  unfolding incomplete_db startup_def db_diagnostic_def by simp

lemma startup_aws_incomplete:
  "\<not> incomplete e db_vars \<Longrightarrow> incomplete e aws_vars \<Longrightarrow>
     startup e = [CreatePool (db e), ConsoleError [aws_diagnostic], ProcessExit 1]"
  unfolding incomplete_db incomplete_aws startup_def aws_diagnostic_def by simp

text \<open>
  C1. Whenever one of the eight required variables is missing or empty, the process
  exits with status 1, the trace of the run has no \<open>app.listen\<close>, and the one
  diagnostic written names a group that is incomplete: the database group when that
  group is incomplete, the object-store group otherwise.
\<close>

theorem startup_missing_variable_exits:
  assumes "incomplete e (db_vars @ aws_vars)"
  shows "exit_status (startup e) = Some 1
       \<and> last (startup e) = ProcessExit 1
       \<and> \<not> list_ex is_listen (startup e)
       \<and> (if incomplete e db_vars
          then diagnostics (startup e) = [[db_diagnostic]]
          else incomplete e aws_vars \<and> diagnostics (startup e) = [[aws_diagnostic]])"
proof (cases "incomplete e db_vars")
  case True
  then show ?thesis by (simp add: startup_db_incomplete)
next
  case False
  with assms have "incomplete e aws_vars"
    by (simp add: incomplete_def)
  with False show ?thesis by (simp add: startup_aws_incomplete)
qed

theorem startup_missing_variable_exits_witness:
  "incomplete [''DB_HOST'' \<mapsto> ''h'', ''DB_USER'' \<mapsto> ''u'', ''DB_PASSWORD'' \<mapsto> ''p'',
               ''DB_NAME'' \<mapsto> ''d'', ''AWS_ACCESS_KEY_ID'' \<mapsto> ''a'',
               ''AWS_SECRET_ACCESS_KEY'' \<mapsto> ''s'', ''AWS_REGION'' \<mapsto> '''']
     (db_vars @ aws_vars)
   \<and> exit_status (startup [''DB_HOST'' \<mapsto> ''h'', ''DB_USER'' \<mapsto> ''u'',
               ''DB_PASSWORD'' \<mapsto> ''p'',
               ''DB_NAME'' \<mapsto> ''d'', ''AWS_ACCESS_KEY_ID'' \<mapsto> ''a'',
               ''AWS_SECRET_ACCESS_KEY'' \<mapsto> ''s'', ''AWS_REGION'' \<mapsto> '''']) = Some 1
   \<and> diagnostics (startup [''DB_HOST'' \<mapsto> ''h'', ''DB_USER'' \<mapsto> ''u'',
               ''DB_PASSWORD'' \<mapsto> ''p'',
               ''DB_NAME'' \<mapsto> ''d'', ''AWS_ACCESS_KEY_ID'' \<mapsto> ''a'',
               ''AWS_SECRET_ACCESS_KEY'' \<mapsto> ''s'', ''AWS_REGION'' \<mapsto> ''''])
       = [[aws_diagnostic]]"
proof -
  let ?e = "[''DB_HOST'' \<mapsto> ''h'', ''DB_USER'' \<mapsto> ''u'', ''DB_PASSWORD'' \<mapsto> ''p'',
             ''DB_NAME'' \<mapsto> ''d'', ''AWS_ACCESS_KEY_ID'' \<mapsto> ''a'',
             ''AWS_SECRET_ACCESS_KEY'' \<mapsto> ''s'', ''AWS_REGION'' \<mapsto> '''']"
  have h: "incomplete ?e (db_vars @ aws_vars)"
    by (simp add: incomplete_def db_vars_def aws_vars_def falsy_def)
  have d: "\<not> incomplete ?e db_vars"
    by (simp add: incomplete_def db_vars_def falsy_def)
  from startup_missing_variable_exits [OF h] d h show ?thesis by simp
qed

text \<open>
  C10. When both groups are incomplete, the run is pool creation, the database
  diagnostic and exit 1: the object-store diagnostic is not written. Whatever the
  environment, a run writes at most one diagnostic.
\<close>

theorem startup_both_incomplete_reports_database:
  "(incomplete e db_vars \<and> incomplete e aws_vars \<longrightarrow>
      startup e = [CreatePool (db e), ConsoleError [db_diagnostic], ProcessExit 1]
      \<and> diagnostics (startup e) = [[db_diagnostic]]
      \<and> [aws_diagnostic] \<notin> set (diagnostics (startup e)))
   \<and> length (diagnostics (startup e)) \<le> 1"
proof -
  have "length (diagnostics (startup e)) \<le> 1"
    by (simp add: startup_def)
  moreover have "db_diagnostic \<noteq> aws_diagnostic"
    by (simp add: db_diagnostic_def aws_diagnostic_def)
  ultimately show ?thesis
    by (simp add: startup_db_incomplete)
qed

theorem startup_both_incomplete_reports_database_witness:
  "incomplete Map.empty db_vars \<and> incomplete Map.empty aws_vars
   \<and> diagnostics (startup Map.empty) = [[db_diagnostic]]
   \<and> [aws_diagnostic] \<notin> set (diagnostics (startup Map.empty))"
proof -
  have h: "incomplete Map.empty db_vars \<and> incomplete Map.empty aws_vars"
    by (simp add: incomplete_def db_vars_def aws_vars_def falsy_def)
  from startup_both_incomplete_reports_database [of Map.empty] h show ?thesis
    by blast
qed

section \<open>The outcomes of a request\<close>

lemma handle_root_unanswered:
  "query_result w the_query = None \<Longrightarrow> handle_root e w = [DbQuery the_query]"
  by (simp add: handle_root_def the_query_def)

lemma handle_root_query_failed:
  "query_result w the_query = Some (Inl err) \<Longrightarrow>
     handle_root e w =
       [DbQuery the_query, QueryDone (Inl err),
        ConsoleError [''Error fetching data from database:'', err],
        ResSend 500 ''Database error'']"
  by (simp add: handle_root_def query_callback_def the_query_def)

lemma handle_root_sign_failed:
  "query_result w the_query = Some (Inr rows) \<Longrightarrow>
   getSignedUrl w (s3 e) (the_command e) 3600 = Inl err \<Longrightarrow>
     handle_root e w =
       [DbQuery the_query, QueryDone (Inr rows),
        GetSignedUrl (s3 e) (the_command e) 3600, SignDone (Inl err),
        ConsoleError [''Error fetching static file from S3:'', err],
        ResSend 500 ''S3 error'']"
  by (simp add: handle_root_def query_callback_def the_query_def the_command_def)

lemma handle_root_success:
  "query_result w the_query = Some (Inr rows) \<Longrightarrow>
   getSignedUrl w (s3 e) (the_command e) 3600 = Inr url \<Longrightarrow>
     handle_root e w =
       [DbQuery the_query, QueryDone (Inr rows),
        GetSignedUrl (s3 e) (the_command e) 3600, SignDone (Inr url),
        ResRender ''index'' \<lparr>products = rows, bannerUrl = href url\<rparr>]"
  by (simp add: handle_root_def query_callback_def the_query_def the_command_def)

lemma handle_root_cases:
  obtains (query_failed) err where "query_result w the_query = Some (Inl err)"
  | (sign_failed) rows err where "query_result w the_query = Some (Inr rows)"
      "getSignedUrl w (s3 e) (the_command e) 3600 = Inl err"
  | (success) rows url where "query_result w the_query = Some (Inr rows)"
      "getSignedUrl w (s3 e) (the_command e) 3600 = Inr url"
  | (unanswered) "query_result w the_query = None"
proof (cases "query_result w the_query")
  case None
  then show ?thesis by (rule unanswered)
next
  case (Some outcome)
  then show ?thesis
    by (cases outcome; cases "getSignedUrl w (s3 e) (the_command e) 3600")
       (auto intro: query_failed sign_failed success)
qed

lemma serve_nth: "i < length ws \<Longrightarrow> serve e ws ! i = handle_root e (ws ! i)"
proof (induction ws arbitrary: i)
  case Nil
  then show ?case by simp
next
  case (Cons w ws)
  then show ?case by (cases i) simp_all
qed

lemma getSignedUrl_Inr:
  "getSignedUrl w client command expiresIn = Inr url \<Longrightarrow>
     target_bucket url = Bucket command \<and> target_key url = Key command
     \<and> expiry url = expiresIn \<and> issued_at url = clock w"
  by (auto simp: getSignedUrl_def split: option.splits)

section \<open>Failure of the query\<close>

text \<open>
  C3. When the query fails, the trace is: query issued, callback with the error, the
  cause logged with \<open>console.error\<close>, response 500 with the body \<open>Database error\<close>.
  The response is the same whatever the error is, so nothing of the error's text
  reaches the caller; the signer is not called and no view is rendered.
\<close>

theorem database_failure_generic_500:
  assumes "query_result w the_query = Some (Inl err)"
    and "query_result w' the_query = Some (Inl err')"
  shows "handle_root e w =
           [DbQuery the_query, QueryDone (Inl err),
            ConsoleError [''Error fetching data from database:'', err],
            ResSend 500 ''Database error'']
       \<and> responses (handle_root e w) = [(500, ''Database error'')]
       \<and> responses (handle_root e w') = responses (handle_root e w)
       \<and> diagnostics (handle_root e w) = [[''Error fetching data from database:'', err]]
       \<and> \<not> list_ex is_sign (handle_root e w)
       \<and> \<not> list_ex is_render (handle_root e w)"
  using assms by (simp add: handle_root_query_failed responses_def List.map_filter_simps)

theorem database_failure_generic_500_witness:
  "query_result (failing_db ''Table shop.products does not exist'') the_query
     = Some (Inl ''Table shop.products does not exist'')
   \<and> query_result (failing_db ''connect ECONNREFUSED'') the_query = Some (Inl ''connect ECONNREFUSED'')
   \<and> responses (handle_root Map.empty (failing_db ''Table shop.products does not exist''))
     = [(500, ''Database error'')]
   \<and> responses (handle_root Map.empty (failing_db ''connect ECONNREFUSED''))
     = responses (handle_root Map.empty (failing_db ''Table shop.products does not exist''))"
proof -
  have a: "query_result (failing_db ''Table shop.products does not exist'') the_query
             = Some (Inl ''Table shop.products does not exist'')"
    by (simp add: failing_db_def)
  have b: "query_result (failing_db ''connect ECONNREFUSED'') the_query
             = Some (Inl ''connect ECONNREFUSED'')"
    by (simp add: failing_db_def)
  from database_failure_generic_500 [OF a b, of Map.empty] a b show ?thesis
    by blast
qed

section \<open>Failure of the signing\<close>

text \<open>
  C2. When the query succeeds and the signing fails, the response is 500 with the body
  \<open>S3 error\<close>, which differs from the body of a failed query; the cause is logged,
  no view is rendered and the rows appear in no later event.
\<close>

theorem signing_failure_500_no_render:
  assumes "query_result w the_query = Some (Inr rows)"
    and "getSignedUrl w (s3 e) (the_command e) 3600 = Inl err"
    and "query_result w' the_query = Some (Inl err')"
  shows "handle_root e w =
           [DbQuery the_query, QueryDone (Inr rows),
            GetSignedUrl (s3 e) (the_command e) 3600, SignDone (Inl err),
            ConsoleError [''Error fetching static file from S3:'', err],
            ResSend 500 ''S3 error'']
       \<and> responses (handle_root e w) = [(500, ''S3 error'')]
       \<and> map snd (responses (handle_root e w)) \<noteq> map snd (responses (handle_root e w'))
       \<and> rendered (handle_root e w) = []
       \<and> \<not> list_ex is_render (handle_root e w)"
  using assms
  by (simp add: handle_root_sign_failed handle_root_query_failed responses_def
      List.map_filter_simps)

theorem signing_failure_500_no_render_witness:
  "query_result (failing_s3 sample_rows ''InvalidAccessKeyId'') the_query = Some (Inr sample_rows)
   \<and> getSignedUrl (failing_s3 sample_rows ''InvalidAccessKeyId'') (s3 Map.empty)
        (the_command Map.empty) 3600 = Inl ''InvalidAccessKeyId''
   \<and> query_result (failing_db ''connect ECONNREFUSED'') the_query = Some (Inl ''connect ECONNREFUSED'')
   \<and> responses (handle_root Map.empty (failing_s3 sample_rows ''InvalidAccessKeyId''))
       = [(500, ''S3 error'')]
   \<and> rendered (handle_root Map.empty (failing_s3 sample_rows ''InvalidAccessKeyId'')) = []"
proof -
  have a: "query_result (failing_s3 sample_rows ''InvalidAccessKeyId'') the_query
             = Some (Inr sample_rows)"
    by (simp add: failing_s3_def)
  have b: "getSignedUrl (failing_s3 sample_rows ''InvalidAccessKeyId'') (s3 Map.empty)
             (the_command Map.empty) 3600 = Inl ''InvalidAccessKeyId''"
    by (simp add: failing_s3_def getSignedUrl_def)
  have c: "query_result (failing_db ''connect ECONNREFUSED'') the_query
             = Some (Inl ''connect ECONNREFUSED'')"
    by (simp add: failing_db_def)
  from signing_failure_500_no_render [OF a b c] a b c show ?thesis
    by blast
qed

section \<open>Order of the two steps\<close>

text \<open>
  C5. A request calls the signer exactly when its query succeeded, and what happened in
  the request before the call is exactly: the query was issued, and it completed with
  rows. So the signing does not begin before the fetch has completed successfully.
\<close>

theorem signing_only_after_successful_query:
  "(list_ex is_sign (handle_root e w) \<longleftrightarrow> (\<exists>rows. query_result w the_query = Some (Inr rows)))
   \<and> (\<forall>i < length (handle_root e w). is_sign (handle_root e w ! i) \<longrightarrow>
        (\<exists>rows. take i (handle_root e w) = [DbQuery the_query, QueryDone (Inr rows)]))"
proof (rule handle_root_cases [where w = w and e = e])
  fix err assume "query_result w the_query = Some (Inl err)"
  then show ?thesis
    by (simp add: handle_root_query_failed nth_Cons' less_Suc_eq)
next
  fix rows err
  assume "query_result w the_query = Some (Inr rows)"
    and "getSignedUrl w (s3 e) (the_command e) 3600 = Inl err"
  then show ?thesis
    by (auto simp: handle_root_sign_failed nth_Cons' less_Suc_eq)
next
  fix rows url
  assume "query_result w the_query = Some (Inr rows)"
    and "getSignedUrl w (s3 e) (the_command e) 3600 = Inr url"
  then show ?thesis
    by (auto simp: handle_root_success nth_Cons' less_Suc_eq)
next
  assume "query_result w the_query = None"
  then show ?thesis
    by (simp add: handle_root_unanswered)
qed

theorem signing_only_after_successful_query_witness:
  "2 < length (handle_root Map.empty (working sample_rows 5))
   \<and> is_sign (handle_root Map.empty (working sample_rows 5) ! 2)
   \<and> list_ex is_sign (handle_root Map.empty (working sample_rows 5))
   \<and> take 2 (handle_root Map.empty (working sample_rows 5))
       = [DbQuery the_query, QueryDone (Inr sample_rows)]"
proof -
  let ?tr = "handle_root Map.empty (working sample_rows 5)"
  have tr: "?tr = [DbQuery the_query, QueryDone (Inr sample_rows),
                  GetSignedUrl (s3 Map.empty) (the_command Map.empty) 3600,
                  SignDone (getSignedUrl (working sample_rows 5) (s3 Map.empty)
                    (the_command Map.empty) 3600),
                  ResRender ''index'' \<lparr>products = sample_rows,
                    bannerUrl = ''https://bucket/banner.jpg''\<rparr>]"
    by (simp add: handle_root_def query_callback_def working_def getSignedUrl_def
        the_query_def the_command_def)
  have a: "2 < length ?tr" and b: "is_sign (?tr ! 2)"
    by (simp_all add: tr)
  from signing_only_after_successful_query [of Map.empty "working sample_rows 5"] a b
  have "list_ex is_sign ?tr
      \<and> (\<exists>rows. take 2 ?tr = [DbQuery the_query, QueryDone (Inr rows)])"
    by (simp add: working_def)
  with a b show ?thesis by (simp add: tr)
qed

section \<open>The signed URL of a successful response\<close>

text \<open>
  C6. Whenever a request renders the view, the URL it embeds is the one the signer
  issued in that request, for the command with the fixed key \<open>banner.jpg\<close> and
  with \<open>expiresIn\<close> 3600: its validity ends 3600 seconds after the signer's
  clock reading at the issuance.
\<close>

theorem signed_url_fixed_key_and_expiry:
  assumes "ls \<in> set (rendered (handle_root e w))"
  shows "\<exists>url. getSignedUrl w (s3 e) \<lparr>Bucket = e ''S3_BUCKET_NAME'', Key = ''banner.jpg''\<rparr> 3600
                 = Inr url
             \<and> GetSignedUrl (s3 e) \<lparr>Bucket = e ''S3_BUCKET_NAME'', Key = ''banner.jpg''\<rparr> 3600
                 \<in> set (handle_root e w)
             \<and> issued (handle_root e w) = [url]
             \<and> bannerUrl ls = href url
             \<and> target_key url = ''banner.jpg''
             \<and> expiry url = 3600
             \<and> issued_at url = clock w
             \<and> valid_until url = clock w + 3600"
proof (rule handle_root_cases [where w = w and e = e])
  fix err assume "query_result w the_query = Some (Inl err)"
  with assms show ?thesis by (simp add: handle_root_query_failed)
next
  fix rows err
  assume "query_result w the_query = Some (Inr rows)"
    and "getSignedUrl w (s3 e) (the_command e) 3600 = Inl err"
  with assms show ?thesis by (simp add: handle_root_sign_failed)
next
  fix rows url
  assume q: "query_result w the_query = Some (Inr rows)"
    and u: "getSignedUrl w (s3 e) (the_command e) 3600 = Inr url"
  from getSignedUrl_Inr [OF u]
  have "target_key url = ''banner.jpg''" "expiry url = 3600" "issued_at url = clock w"
    by (simp_all add: the_command_def)
  with assms q u show ?thesis
    by (simp add: handle_root_success valid_until_def the_command_def [symmetric])
next
  assume "query_result w the_query = None"
  with assms show ?thesis by (simp add: handle_root_unanswered)
qed

theorem signed_url_fixed_key_and_expiry_witness:
  "\<lparr>products = sample_rows, bannerUrl = ''https://bucket/banner.jpg''\<rparr>
     \<in> set (rendered (handle_root Map.empty (working sample_rows 100)))
   \<and> (\<exists>url. issued (handle_root Map.empty (working sample_rows 100)) = [url]
          \<and> target_key url = ''banner.jpg'' \<and> expiry url = 3600 \<and> valid_until url = 3700)"
proof -
  have a: "\<lparr>products = sample_rows, bannerUrl = ''https://bucket/banner.jpg''\<rparr>
     \<in> set (rendered (handle_root Map.empty (working sample_rows 100)))"
    by (simp add: handle_root_def query_callback_def working_def getSignedUrl_def)
  from signed_url_fixed_key_and_expiry [OF a] a show ?thesis
    by (auto simp: working_def)
qed

section \<open>One response per request\<close>




section \<open>A sequence of requests\<close>

lemma handle_root_queries_once:
  "filter is_query (handle_root e w) = [DbQuery the_query]"
  by (rule handle_root_cases [where w = w and e = e])
     (simp_all add: handle_root_query_failed handle_root_sign_failed handle_root_success
        handle_root_unanswered)

lemma handle_root_rendered:
  assumes "ls \<in> set (rendered (handle_root e w))"
  shows "\<exists>url. filter is_sign (handle_root e w) = [GetSignedUrl (s3 e) (the_command e) 3600]
             \<and> issued (handle_root e w) = [url]
             \<and> issued_at url = clock w
             \<and> query_result w the_query = Some (Inr (products ls))
             \<and> bannerUrl ls = href url"
proof (rule handle_root_cases [where w = w and e = e])
  fix err assume "query_result w the_query = Some (Inl err)"
  with assms show ?thesis by (simp add: handle_root_query_failed)
next
  fix rows err
  assume "query_result w the_query = Some (Inr rows)"
    and "getSignedUrl w (s3 e) (the_command e) 3600 = Inl err"
  with assms show ?thesis by (simp add: handle_root_sign_failed)
next
  fix rows url
  assume q: "query_result w the_query = Some (Inr rows)"
    and u: "getSignedUrl w (s3 e) (the_command e) 3600 = Inr url"
  from getSignedUrl_Inr [OF u] have "issued_at url = clock w"
    by simp
  with assms q u show ?thesis
    by (simp add: handle_root_success)
next
  assume "query_result w the_query = None"
  with assms show ?thesis by (simp add: handle_root_unanswered)
qed

lemma handle_root_signs:
  "query_result w the_query = Some (Inr rows) \<Longrightarrow>
     filter is_sign (handle_root e w) = [GetSignedUrl (s3 e) (the_command e) 3600]"
  by (cases "getSignedUrl w (s3 e) (the_command e) 3600")
     (simp_all add: handle_root_sign_failed handle_root_success)

lemma handle_root_issued:
  "u \<in> set (issued (handle_root e w)) \<Longrightarrow> issued_at u = clock w"
proof (rule handle_root_cases [where w = w and e = e])
  fix err assume "query_result w the_query = Some (Inl err)"
  then show "u \<in> set (issued (handle_root e w)) \<Longrightarrow> issued_at u = clock w"
    by (simp add: handle_root_query_failed)
next
  fix rows err
  assume "query_result w the_query = Some (Inr rows)"
    and "getSignedUrl w (s3 e) (the_command e) 3600 = Inl err"
  then show "u \<in> set (issued (handle_root e w)) \<Longrightarrow> issued_at u = clock w"
    by (simp add: handle_root_sign_failed)
next
  fix rows url
  assume "query_result w the_query = Some (Inr rows)"
    and u: "getSignedUrl w (s3 e) (the_command e) 3600 = Inr url"
  with getSignedUrl_Inr [OF u]
  show "u \<in> set (issued (handle_root e w)) \<Longrightarrow> issued_at u = clock w"
    by (simp add: handle_root_success)
next
  assume "query_result w the_query = None"
  then show "u \<in> set (issued (handle_root e w)) \<Longrightarrow> issued_at u = clock w"
    by (simp add: handle_root_unanswered)
qed

lemma handle_root_no_sign:
  "\<not> (\<exists>rows. query_result w the_query = Some (Inr rows)) \<Longrightarrow>
     filter is_sign (handle_root e w) = []"
  by (rule handle_root_cases [where w = w and e = e])
     (simp_all add: handle_root_query_failed handle_root_unanswered)

lemma handle_root_afresh:
  "filter is_query (handle_root e w) = [DbQuery the_query]
   \<and> (if \<exists>rows. query_result w the_query = Some (Inr rows)
       then filter is_sign (handle_root e w) = [GetSignedUrl (s3 e) (the_command e) 3600]
       else filter is_sign (handle_root e w) = [])
   \<and> (\<forall>ls \<in> set (rendered (handle_root e w)).
        query_result w the_query = Some (Inr (products ls))
        \<and> (\<exists>u. issued (handle_root e w) = [u] \<and> bannerUrl ls = href u
               \<and> issued_at u = clock w))"
proof -
  have "if \<exists>rows. query_result w the_query = Some (Inr rows)
        then filter is_sign (handle_root e w) = [GetSignedUrl (s3 e) (the_command e) 3600]
        else filter is_sign (handle_root e w) = []"
    using handle_root_signs [of w _ e] handle_root_no_sign [of w e] by auto
  with handle_root_queries_once [of e w] handle_root_rendered [of _ e w]
  show ?thesis by blast
qed

text \<open>
  C7, as amended. Nothing is kept from one request to the next. Of two requests
  handled one after the other, each issues the query itself; each calls the signer
  itself when its query succeeded, and not otherwise; a request that renders the view
  renders the rows of its own query and the URL issued in it. A URL carries the
  signer's clock reading of its own request as its issuance time: the issuance times
  of the two requests are distinct exactly when the clock readings of the two
  requests are.
\<close>

theorem no_caching_across_requests:
  assumes "i < j" and "j < length ws"
  shows "(\<forall>k \<in> {i, j}.
            filter is_query (serve e ws ! k) = [DbQuery the_query]
          \<and> (if \<exists>rows. query_result (ws ! k) the_query = Some (Inr rows)
              then filter is_sign (serve e ws ! k)
                     = [GetSignedUrl (s3 e) (the_command e) 3600]
              else filter is_sign (serve e ws ! k) = [])
          \<and> (\<forall>ls \<in> set (rendered (serve e ws ! k)).
               query_result (ws ! k) the_query = Some (Inr (products ls))
               \<and> (\<exists>u. issued (serve e ws ! k) = [u] \<and> bannerUrl ls = href u
                      \<and> issued_at u = clock (ws ! k))))
       \<and> (\<forall>u \<in> set (issued (serve e ws ! i)). \<forall>v \<in> set (issued (serve e ws ! j)).
            issued_at u = clock (ws ! i) \<and> issued_at v = clock (ws ! j)
            \<and> (issued_at u \<noteq> issued_at v \<longleftrightarrow> clock (ws ! i) \<noteq> clock (ws ! j)))"
proof -
  from assms have i: "serve e ws ! i = handle_root e (ws ! i)"
    and j: "serve e ws ! j = handle_root e (ws ! j)"
    by (simp_all add: serve_nth)
  have "\<forall>u \<in> set (issued (handle_root e (ws ! i))).
        \<forall>v \<in> set (issued (handle_root e (ws ! j))).
          issued_at u = clock (ws ! i) \<and> issued_at v = clock (ws ! j)
          \<and> (issued_at u \<noteq> issued_at v \<longleftrightarrow> clock (ws ! i) \<noteq> clock (ws ! j))"
    by (simp add: handle_root_issued)
  with handle_root_afresh [of e "ws ! i"] handle_root_afresh [of e "ws ! j"]
  show ?thesis
    by (simp add: i j)
qed

theorem no_caching_across_requests_witness:
  "(0::nat) < 1 \<and> 1 < length [working sample_rows 100, working [] 101]
   \<and> filter is_query (serve Map.empty [working sample_rows 100, working [] 101] ! 1)
       = [DbQuery the_query]
   \<and> (\<exists>u v. issued (serve Map.empty [working sample_rows 100, working [] 101] ! 0) = [u]
          \<and> issued (serve Map.empty [working sample_rows 100, working [] 101] ! 1) = [v]
          \<and> issued_at u = 100 \<and> issued_at v = 101 \<and> issued_at u \<noteq> issued_at v)"
proof -
  let ?ws = "[working sample_rows 100, working [] 101]"
  have a: "(0::nat) < 1" and b: "1 < length ?ws"
    by simp_all
  have t: "clock (?ws ! 0) = 100" "clock (?ws ! 1) = 101"
    by (simp_all add: working_def)
  obtain u where u: "issued (serve Map.empty ?ws ! 0) = [u]"
    by (simp add: handle_root_def query_callback_def working_def getSignedUrl_def)
  obtain v where v: "issued (serve Map.empty ?ws ! 1) = [v]"
    by (simp add: handle_root_def query_callback_def working_def getSignedUrl_def)
  note fresh = no_caching_across_requests [OF a b, of Map.empty]
  from fresh have q: "filter is_query (serve Map.empty ?ws ! 1) = [DbQuery the_query]"
    by blast
  from fresh have "\<forall>u \<in> set (issued (serve Map.empty ?ws ! 0)).
      \<forall>v \<in> set (issued (serve Map.empty ?ws ! 1)).
        issued_at u = clock (?ws ! 0) \<and> issued_at v = clock (?ws ! 1)"
    by blast
  with u v t have "issued_at u = 100 \<and> issued_at v = 101 \<and> issued_at u \<noteq> issued_at v"
    by simp
  with a b q u v show ?thesis
    by blast
qed

text \<open>
  C7, as stated, fails twice. Two requests handled one after the other within the
  same second of the signer's clock are issued URLs with the same issuance time (here
  the same URL). And a request whose query fails does not execute the signing.
\<close>

theorem same_second_requests_same_issuance_time:
  "map issued_at
     (issued (serve Map.empty [working sample_rows 100, working sample_rows 100] ! 0)) = [100]
   \<and> map issued_at
     (issued (serve Map.empty [working sample_rows 100, working sample_rows 100] ! 1)) = [100]
   \<and> issued (serve Map.empty [working sample_rows 100, working sample_rows 100] ! 0)
       = issued (serve Map.empty [working sample_rows 100, working sample_rows 100] ! 1)
   \<and> filter is_sign
       (serve Map.empty [failing_db ''connect ECONNREFUSED'', working sample_rows 100] ! 0)
       = []"
  by (simp add: handle_root_def query_callback_def working_def failing_db_def
      getSignedUrl_def)

section \<open>The rendered page\<close>

lemma fold_item: "fold item ps out = out @ concat (map entry ps)"
proof (induction ps arbitrary: out)
  case Nil
  then show ?case by simp
next
  case (Cons p ps)
  have "item p out = out @ entry p"
    by (simp add: item_def entry_def)
  with Cons show ?case by simp
qed

lemma escape_char_no_lt: "CHR ''<'' \<notin> set (escape_char c)"
  by (simp add: escape_char_def)

lemma escapeXML_no_lt: "CHR ''<'' \<notin> set (escapeXML v)"
  by (cases v) (simp_all add: escapeXML_def escape_char_no_lt)

lemma count_li_no_lt: "CHR ''<'' \<notin> set a \<Longrightarrow> count_li (a @ b) = count_li b"
  by (induction a) auto

lemma count_li_no_lt0: "CHR ''<'' \<notin> set a \<Longrightarrow> count_li a = 0"
  using count_li_no_lt [of a "[]"] by simp

lemma escapeXML_markup_free: "markup_free s \<Longrightarrow> escapeXML (Some s) = s"
  by (induction s) (simp_all add: markup_free_def escapeXML_def escape_char_def)

lemma count_text_name: "count_li (text_name @ b) = Suc (count_li b)"
  by (simp add: text_name_def)

lemma count_text_description: "count_li (text_description @ b) = count_li b"
  by (simp add: text_description_def)

lemma count_text_price: "count_li (text_price @ b) = count_li b"
  by (simp add: text_price_def)

lemma count_text_item_end: "count_li (text_item_end @ b) = count_li b"
  by (simp add: text_item_end_def)

lemma count_text_head: "count_li (text_head @ b) = count_li b"
  by (simp add: text_head_def)

lemma count_text_list: "count_li (text_list @ b) = count_li b"
  by (simp add: text_list_def)

lemma count_text_tail: "count_li text_tail = 0"
  by (simp add: text_tail_def)

lemma count_entry: "count_li (entry p @ b) = Suc (count_li b)"
  by (simp add: entry_def item_def count_text_name count_text_description count_text_price
      count_text_item_end count_li_no_lt escapeXML_no_lt)

lemma count_entries: "count_li (concat (map entry ps) @ b) = length ps + count_li b"
  by (induction ps) (simp_all add: count_entry)

lemma index_ejs_layout:
  "index_ejs ls =
     text_head @ escapeXML (Some (bannerUrl ls)) @ text_list
       @ concat (map entry (products ls)) @ text_tail"
  by (simp add: index_ejs_def fold_item)

lemma count_index_ejs: "count_li (index_ejs ls) = length (products ls)"
  by (simp add: index_ejs_layout count_text_head count_text_list count_li_no_lt
      escapeXML_no_lt count_entries count_text_tail)

lemma is_digit_plain:
  "is_digit c \<Longrightarrow> c \<notin> set [CHR ''&'', CHR ''<'', CHR ''>'', CHR 0x22, CHR 0x27]"
  by (auto simp: is_digit_def)

lemma integer_text_markup_free: "integer_text s \<Longrightarrow> markup_free s"
proof (cases s)
  case Nil
  then show ?thesis by (simp add: markup_free_def)
next
  case (Cons c cs)
  assume "integer_text s"
  with Cons have "(c = CHR ''-'' \<or> is_digit c) \<and> list_all is_digit cs"
    by (auto simp: integer_text_def split: if_splits)
  with Cons is_digit_plain show ?thesis
    by (auto simp: markup_free_def list_all_iff)
qed

lemma two_fraction_digits_markup_free: "two_fraction_digits s \<Longrightarrow> markup_free s"
proof -
  assume a: "two_fraction_digits s"
  then obtain d2 d1 whole where r: "rev s = d2 # d1 # CHR ''.'' # whole"
    and ds: "is_digit d2" "is_digit d1" "integer_text (rev whole)"
    by (auto simp: two_fraction_digits_def split: list.splits)
  from r have "rev (rev s) = rev (d2 # d1 # CHR ''.'' # whole)"
    by simp
  then have s: "s = rev whole @ [CHR ''.'', d1, d2]"
    by simp
  from ds(3) have "markup_free (rev whole)"
    by (rule integer_text_markup_free)
  with ds(1,2) is_digit_plain [of d1] is_digit_plain [of d2] show ?thesis
    unfolding s by (simp add: markup_free_def)
qed

lemma entry_layout:
  "entry p =
     text_name @ escapeXML (Some (name p)) @ text_description @ escapeXML (description p)
       @ text_price @ escapeXML (price p) @ text_item_end"
  by (simp add: entry_def item_def)

text \<open>
  C4, as amended. When the query and the signing both succeed, the handler hands the
  rows and the URL to the view and answers with its output and status 200. The page
  has exactly one item entry per row, in the order of the rows; an entry shows the
  row's name, description and price as the query returned them, escaped for HTML, an
  absent description or price as empty text. The template does not format the price:
  it shows exactly two fraction digits when the row's price text has them, as the text
  of a \<open>DECIMAL(10, 2)\<close> value has.
\<close>

theorem successful_request_renders_rows:
  assumes "query_result w the_query = Some (Inr rows)"
    and "getSignedUrl w (s3 e) (the_command e) 3600 = Inr url"
  shows "rendered (handle_root e w) = [\<lparr>products = rows, bannerUrl = href url\<rparr>]
       \<and> responses (handle_root e w)
           = [(200, index_ejs \<lparr>products = rows, bannerUrl = href url\<rparr>)]
       \<and> index_ejs \<lparr>products = rows, bannerUrl = href url\<rparr>
           = text_head @ escapeXML (Some (href url)) @ text_list
               @ concat (map entry rows) @ text_tail
       \<and> count_li (index_ejs \<lparr>products = rows, bannerUrl = href url\<rparr>) = length rows
       \<and> (\<forall>p \<in> set rows.
             entry p = text_name @ escapeXML (Some (name p))
                         @ text_description @ escapeXML (description p)
                         @ text_price @ escapeXML (price p) @ text_item_end
           \<and> (markup_free (name p) \<longrightarrow> escapeXML (Some (name p)) = name p)
           \<and> (\<forall>d. description p = Some d \<and> markup_free d \<longrightarrow> escapeXML (description p) = d)
           \<and> (\<forall>s. price p = Some s \<and> two_fraction_digits s \<longrightarrow> escapeXML (price p) = s)
           \<and> (price p = None \<longrightarrow> escapeXML (price p) = []))"
proof -
  let ?ls = "\<lparr>products = rows, bannerUrl = href url\<rparr>"
  from assms have "handle_root e w =
       [DbQuery the_query, QueryDone (Inr rows),
        GetSignedUrl (s3 e) (the_command e) 3600, SignDone (Inr url),
        ResRender ''index'' ?ls]"
    by (rule handle_root_success)
  then have a: "rendered (handle_root e w) = [?ls]"
    and b: "responses (handle_root e w) = [(200, index_ejs ?ls)]"
    by (simp_all add: responses_def List.map_filter_simps render_def)
  have c: "index_ejs ?ls = text_head @ escapeXML (Some (href url)) @ text_list
             @ concat (map entry rows) @ text_tail"
    using index_ejs_layout [of ?ls] by simp
  have d: "count_li (index_ejs ?ls) = length rows"
    using count_index_ejs [of ?ls] by simp
  have f: "price p = Some s \<and> two_fraction_digits s \<longrightarrow> escapeXML (price p) = s" for p s
    by (auto dest: two_fraction_digits_markup_free simp: escapeXML_markup_free)
  have g: "price p = None \<longrightarrow> escapeXML (price p) = []" for p
    by (simp add: escapeXML_def)
  have h: "description p = Some d \<and> markup_free d \<longrightarrow> escapeXML (description p) = d" for p d
    by (auto simp: escapeXML_markup_free)
  have k: "\<forall>p \<in> set rows.
             entry p = text_name @ escapeXML (Some (name p))
                         @ text_description @ escapeXML (description p)
                         @ text_price @ escapeXML (price p) @ text_item_end
           \<and> (markup_free (name p) \<longrightarrow> escapeXML (Some (name p)) = name p)
           \<and> (\<forall>d. description p = Some d \<and> markup_free d \<longrightarrow> escapeXML (description p) = d)
           \<and> (\<forall>s. price p = Some s \<and> two_fraction_digits s \<longrightarrow> escapeXML (price p) = s)
           \<and> (price p = None \<longrightarrow> escapeXML (price p) = [])"
    using f g h entry_layout escapeXML_markup_free by blast
  from a b c d k show ?thesis
    by blast
qed

theorem successful_request_renders_rows_witness:
  "query_result (working sample_rows 100) the_query = Some (Inr sample_rows)
   \<and> (\<exists>url. getSignedUrl (working sample_rows 100) (s3 Map.empty) (the_command Map.empty) 3600
              = Inr url
          \<and> responses (handle_root Map.empty (working sample_rows 100))
              = [(200, index_ejs \<lparr>products = sample_rows, bannerUrl = href url\<rparr>)]
          \<and> count_li (index_ejs \<lparr>products = sample_rows, bannerUrl = href url\<rparr>) = 2)
   \<and> hd sample_rows \<in> set sample_rows
   \<and> markup_free (name (hd sample_rows))
   \<and> price (hd sample_rows) = Some ''19.99'' \<and> two_fraction_digits ''19.99''
   \<and> escapeXML (price (hd sample_rows)) = ''19.99''"
proof -
  obtain url where u: "getSignedUrl (working sample_rows 100) (s3 Map.empty)
      (the_command Map.empty) 3600 = Inr url"
    by (simp add: getSignedUrl_def working_def)
  have q: "query_result (working sample_rows 100) the_query = Some (Inr sample_rows)"
    by (simp add: working_def)
  have m: "hd sample_rows \<in> set sample_rows" "markup_free (name (hd sample_rows))"
    "price (hd sample_rows) = Some ''19.99''" "two_fraction_digits ''19.99''"
    by (simp_all add: sample_rows_def markup_free_def two_fraction_digits_def is_digit_def
        integer_text_def)
  have n: "length sample_rows = 2"
    by (simp add: sample_rows_def)
  from successful_request_renders_rows [OF q u] u q m n show ?thesis
    by auto
qed

text \<open>
  C4, as stated, fails for a row without price (the column is nullable): the request
  succeeds and the entry of that row shows the empty text after \<open>Price: $\<close>, so no
  text with two fraction digits.
\<close>

theorem unpriced_row_shows_no_fraction_digits:
  "query_result (working [unpriced] 100) the_query = Some (Inr [unpriced])
   \<and> s3_fault (working [unpriced] 100) = None
   \<and> rendered (handle_root Map.empty (working [unpriced] 100))
       = [\<lparr>products = [unpriced], bannerUrl = ''https://bucket/banner.jpg''\<rparr>]
   \<and> entry unpriced
       = text_name @ ''Gift'' @ text_description @ text_price @ [] @ text_item_end
   \<and> \<not> two_fraction_digits []
   \<and> \<not> (\<exists>s. two_fraction_digits s
            \<and> entry unpriced
                = text_name @ ''Gift'' @ text_description @ text_price @ s @ text_item_end)"
proof -
  have a: "entry unpriced
       = text_name @ ''Gift'' @ text_description @ text_price @ [] @ text_item_end"
    by (simp add: entry_layout unpriced_def escapeXML_def escape_char_def)
  have b: "\<not> two_fraction_digits []"
    by (simp add: two_fraction_digits_def)
  have c: "\<not> (\<exists>s. two_fraction_digits s
            \<and> entry unpriced
                = text_name @ ''Gift'' @ text_description @ text_price @ s @ text_item_end)"
  proof
    assume "\<exists>s. two_fraction_digits s
            \<and> entry unpriced
                = text_name @ ''Gift'' @ text_description @ text_price @ s @ text_item_end"
    then obtain s where s: "two_fraction_digits s"
      and "entry unpriced
             = text_name @ ''Gift'' @ text_description @ text_price @ s @ text_item_end"
      by blast
    with a have "text_name @ ''Gift'' @ text_description @ text_price @ [] @ text_item_end
        = text_name @ ''Gift'' @ text_description @ text_price @ s @ text_item_end"
      by simp
    then have "s = []" by simp
    with s b show False by simp
  qed
  have d: "rendered (handle_root Map.empty (working [unpriced] 100))
       = [\<lparr>products = [unpriced], bannerUrl = ''https://bucket/banner.jpg''\<rparr>]"
    by (simp add: handle_root_def query_callback_def working_def getSignedUrl_def)
  from a b c d show ?thesis
    by (simp add: working_def)
qed

section \<open>Graceful shutdown\<close>

lemma step_gone: "gone s \<Longrightarrow> step s i = s"
  by (simp add: gone_def step_def)

lemma run_gone: "gone s \<Longrightarrow> run s is = s"
  by (induction "is") (simp_all add: step_gone)

lemma step_draining_Query:
  "draining s \<Longrightarrow>
     draining (step s Query) \<and> in_flight (pool_of (step s Query)) = in_flight (pool_of s)"
  by (simp add: draining_def step_def checkout_def)

lemma step_refused_query:
  "exited s = None \<Longrightarrow> closed (pool_of s) \<Longrightarrow>
   query_result w the_query = Some (Inl ''Pool is closed.'') \<Longrightarrow>
     step s Query = s\<lparr>trace := trace s @ handle_root e w\<rparr>"
  by (simp add: step_def checkout_def handle_root_query_failed)

lemma step_draining_Completion:
  "draining s \<Longrightarrow>
     (if in_flight (pool_of s) = 1 then gone (step s Completion)
      else draining (step s Completion)
         \<and> in_flight (pool_of (step s Completion)) = in_flight (pool_of s) - 1)"
  by (auto simp: draining_def gone_def step_def release_def settle_def end_ready_def
      end_callback_def suffix_def)

lemma run_draining:
  "draining s \<Longrightarrow> list_all quiet is \<Longrightarrow>
     (if in_flight (pool_of s) \<le> completions is then gone (run s is)
      else draining (run s is)
         \<and> in_flight (pool_of (run s is)) = in_flight (pool_of s) - completions is)"
proof (induction "is" arbitrary: s)
  case Nil
  then show ?case by (simp add: completions_def draining_def)
next
  case (Cons i "is")
  from Cons.prems have q: "list_all quiet is" by simp
  show ?case
  proof (cases i)
    case (Signal sg)
    with Cons.prems show ?thesis by simp
  next
    case Query
    with Cons.prems step_draining_Query [of s] Cons.IH [of "step s Query", OF _ q]
    show ?thesis by (simp add: completions_def)
  next
    case Completion
    show ?thesis
    proof (cases "in_flight (pool_of s) = 1")
      case True
      with Cons.prems step_draining_Completion [of s] have "gone (step s Completion)"
        by simp
      with True Completion show ?thesis
        by (simp add: run_gone completions_def)
    next
      case False
      with Cons.prems step_draining_Completion [of s]
      have d: "draining (step s Completion)"
        and n: "in_flight (pool_of (step s Completion)) = in_flight (pool_of s) - 1"
        by simp_all
      from Cons.prems have "0 < in_flight (pool_of s)"
        by (simp add: draining_def)
      with Completion n Cons.IH [OF d q] show ?thesis
        by (auto simp: completions_def)
    qed
  qed
qed

lemma exit_status_append:
  "exit_status (xs @ ys) = (case exit_status xs of None \<Rightarrow> exit_status ys | Some n \<Rightarrow> Some n)"
  by (induction xs rule: exit_status.induct) simp_all

lemma step_exit_status:
  "exit_status (trace s) = exited s \<Longrightarrow> i \<noteq> Signal SIGTERM \<Longrightarrow>
     exit_status (trace (step s i)) = exited (step s i)"
proof (cases i)
  case (Signal sg)
  assume "exit_status (trace s) = exited s" and "i \<noteq> Signal SIGTERM"
  with Signal have "sg = SIGINT" by (cases sg) simp_all
  with Signal \<open>exit_status (trace s) = exited s\<close> show ?thesis
    by (auto simp: step_def settle_def end_callback_def sigint_handler_def exit_status_append)
next
  case Query
  assume "exit_status (trace s) = exited s"
  with Query show ?thesis
    by (auto simp: step_def exit_status_append split: sum.splits)
next
  case Completion
  assume "exit_status (trace s) = exited s"
  with Completion show ?thesis
    by (auto simp: step_def settle_def end_callback_def exit_status_append)
qed

lemma run_exit_status:
  "exit_status (trace s) = exited s \<Longrightarrow> list_all quiet is \<Longrightarrow>
     exit_status (trace (run s is)) = exited (run s is)"
proof (induction "is" arbitrary: s)
  case Nil
  then show ?case by simp
next
  case (Cons i "is")
  from Cons.prems have "i \<noteq> Signal SIGTERM" and q: "list_all quiet is"
    by auto
  with Cons.prems have "exit_status (trace (step s i)) = exited (step s i)"
    by (simp add: step_exit_status)
  with Cons.IH [OF _ q] show ?case by simp
qed

lemma step_closed: "closed (pool_of s) \<Longrightarrow> closed (pool_of (step s i))"
  by (cases i)
     (auto simp: step_def settle_def end_callback_def sigint_handler_def pool_end_def
        release_def checkout_def)

lemma run_closed: "closed (pool_of s) \<Longrightarrow> closed (pool_of (run s is))"
  by (induction "is" arbitrary: s) (simp_all add: step_closed)

lemma step_trace_grows: "prefix (trace s) (trace (step s i))"
  by (cases i)
     (auto simp: step_def settle_def end_callback_def sigint_handler_def split: sum.splits)

lemma run_trace_grows: "prefix (trace s) (trace (run s is))"
proof (induction "is" arbitrary: s)
  case Nil
  then show ?case by simp
next
  case (Cons i "is")
  from step_trace_grows [of s i] Cons [of "step s i"] show ?case
    by (auto intro: prefix_order.trans)
qed

lemma step_running_Sigint:
  "running s \<Longrightarrow>
     closed (pool_of (step s (Signal SIGINT)))
   \<and> in_flight (pool_of (step s (Signal SIGINT))) = in_flight (pool_of s)
   \<and> exit_status (trace (step s (Signal SIGINT))) = exited (step s (Signal SIGINT))
   \<and> prefix (trace s @ [ConsoleLog [''Shutting down server...''], DbEnd])
        (trace (step s (Signal SIGINT)))
   \<and> (if in_flight (pool_of s) = 0 then gone (step s (Signal SIGINT))
      else draining (step s (Signal SIGINT)))"
  by (auto simp: running_def gone_def draining_def step_def settle_def end_ready_def
      end_callback_def sigint_handler_def pool_end_def suffix_def exit_status_append)

text \<open>
  C8, as amended. After SIGINT reaches a running process, and as long as no further
  signal arrives: the pool is ended and refuses every checkout (requests that still
  arrive are answered with the database error; the number of operations in flight only
  falls); the process exits exactly when the operations that were in flight have all
  completed, not earlier; its exit status is 0; and its trace continues with the
  shutdown message and \<open>db.end\<close> and, once it has exited, ends with the message of
  the callback and \<open>process.exit(0)\<close>.
\<close>

theorem graceful_shutdown:
  assumes "running s" and "list_all quiet is"
  shows "closed (pool_of (run s (Signal SIGINT # is)))
       \<and> checkout (pool_of (run s (Signal SIGINT # is))) = Inl ''Pool is closed.''
       \<and> in_flight (pool_of (run s (Signal SIGINT # is)))
           = in_flight (pool_of s) - completions is
       \<and> exited (run s (Signal SIGINT # is))
           = (if in_flight (pool_of s) \<le> completions is then Some 0 else None)
       \<and> exit_status (trace (run s (Signal SIGINT # is)))
           = exited (run s (Signal SIGINT # is))
       \<and> prefix (trace s @ [ConsoleLog [''Shutting down server...''], DbEnd])
            (trace (run s (Signal SIGINT # is)))
       \<and> (in_flight (pool_of s) \<le> completions is \<longrightarrow>
            suffix [ConsoleLog [''MySQL connections closed''], ProcessExit 0]
              (trace (run s (Signal SIGINT # is))))"
proof -
  let ?t = "step s (Signal SIGINT)"
  let ?r = "run s (Signal SIGINT # is)"
  have r: "?r = run ?t is" by simp
  note t = step_running_Sigint [OF assms(1)]
  from t assms(2) have x: "exit_status (trace ?r) = exited ?r"
    unfolding r by (simp add: run_exit_status)
  from t run_closed [of ?t "is"] have c: "closed (pool_of ?r)"
    by (simp add: r)
  then have k: "checkout (pool_of ?r) = Inl ''Pool is closed.''"
    by (simp add: checkout_def)
  from t run_trace_grows [of ?t "is"]
  have p: "prefix (trace s @ [ConsoleLog [''Shutting down server...''], DbEnd]) (trace ?r)"
    unfolding r by (blast intro: prefix_order.trans)
  show ?thesis
  proof (cases "in_flight (pool_of s) = 0")
    case True
    with t have g: "gone ?t" by simp
    then have "run ?t is = ?t" by (rule run_gone)
    with g True c k x p show ?thesis
      unfolding r by (simp add: gone_def)
  next
    case False
    with t have d: "draining ?t" and n: "in_flight (pool_of ?t) = in_flight (pool_of s)"
      by simp_all
    show ?thesis
    proof (cases "in_flight (pool_of s) \<le> completions is")
      case True
      with run_draining [OF d assms(2)] n have "gone (run ?t is)" by simp
      with True c k x p show ?thesis
        unfolding r by (simp add: gone_def)
    next
      case False
      with run_draining [OF d assms(2)] n
      have "draining (run ?t is)"
        and "in_flight (pool_of (run ?t is)) = in_flight (pool_of s) - completions is"
        by simp_all
      with False c k x p show ?thesis
        unfolding r by (simp add: draining_def)
    qed
  qed
qed

theorem graceful_shutdown_witness:
  "running (serving 2)
   \<and> list_all quiet [Query, Completion, Query, Completion]
   \<and> in_flight (pool_of (serving 2)) \<le> completions [Query, Completion, Query, Completion]
   \<and> exited (run (serving 2) [Signal SIGINT, Query, Completion, Query, Completion]) = Some 0
   \<and> checkout (pool_of (run (serving 2) [Signal SIGINT, Query, Completion, Query]))
       = Inl ''Pool is closed.''
   \<and> exited (run (serving 2) [Signal SIGINT, Query, Completion, Query]) = None"
proof -
  have a: "running (serving 2)"
    by (simp add: running_def serving_def)
  have q: "list_all quiet [Query, Completion, Query, Completion]"
    and q': "list_all quiet [Query, Completion, Query]"
    by simp_all
  have b: "in_flight (pool_of (serving 2)) \<le> completions [Query, Completion, Query, Completion]"
    and c: "\<not> in_flight (pool_of (serving 2)) \<le> completions [Query, Completion, Query]"
    by (simp_all add: serving_def completions_def)
  from graceful_shutdown [OF a q] graceful_shutdown [OF a q'] a q b c
  show ?thesis by simp
qed

text \<open>
  C8, as stated, fails for a termination signal other than SIGINT: SIGTERM has no
  handler, so the process ends by the runtime's default with status 143, the pool not
  ended and an operation still in flight. It also fails when SIGINT arrives a second
  time while an operation is in flight: the process then exits at once.
\<close>

theorem sigterm_ends_without_closing_the_pool:
  "exited (run (serving 1) [Signal SIGTERM]) = Some 143
   \<and> \<not> closed (pool_of (run (serving 1) [Signal SIGTERM]))
   \<and> in_flight (pool_of (run (serving 1) [Signal SIGTERM])) = 1
   \<and> trace (run (serving 1) [Signal SIGTERM]) = []
   \<and> exited (run (serving 1) [Signal SIGINT]) = None
   \<and> exited (run (serving 1) [Signal SIGINT, Signal SIGINT]) = Some 0
   \<and> in_flight (pool_of (run (serving 1) [Signal SIGINT, Signal SIGINT])) = 1"
  by (simp add: serving_def step_def settle_def sigint_handler_def pool_end_def
      end_ready_def end_callback_def)

end
